theory Spec2Isabelle
  imports Complex_Main
begin

section \<open>The store: rows, transactions, conditional updates\<close>

text \<open>
  Both services keep their tables in a relational store reached through SQLAlchemy
  sessions. A table is the list of its rows, in insertion order. The \<^verbatim>\<open>String\<close>
  columns \<^verbatim>\<open>payload\<close> hold \<^verbatim>\<open>json.dumps\<close> of a dictionary and every reader applies
  \<^verbatim>\<open>json.loads\<close> to it; the model keeps the dictionary itself, as a record of its
  keys.

  The columns declared \<^verbatim>\<open>Float\<close> hold double precision numbers. A value of such a
  column is modelled by the real number it denotes, and comparing two of them is
  comparing these reals. Arithmetic is the store's: the difference and the sum it
  computes are the exact ones rounded to a double, so subtraction and addition on
  these columns are parameters, \<open>fsub\<close> and \<open>fadd\<close>, of the operations that use them,
  and nothing is assumed of them but what a statement says.
\<close>

datatype error =
    CommitFailed
  | FlushFailed
  | PublishFailed
  | SendFailed
  | IntegrityError
  | NotFound
  | Crashed

text \<open>
  \<^verbatim>\<open>async with session.begin():\<close> runs its block in one transaction. When the block
  raises, or when the commit at the end of the block fails, the transaction is rolled
  back: the store is as it was before the block and the exception propagates. The flag
  \<open>commit_ok\<close> says whether the store accepts the commit.

  The counters from which the store draws the ids of new rows are fields of the same
  records as the tables, so a rollback restores them too. A store whose id sequences
  are not transactional skips the ids drawn by a transaction that is rolled back;
  that changes which ids later rows get, and nothing else.
\<close>

definition session_begin ::
  "bool \<Rightarrow> 'db \<Rightarrow> ('db \<Rightarrow> error + ('db \<times> 'a)) \<Rightarrow> 'db \<times> (error + 'a)" where
  "session_begin commit_ok db block =
     (case block db of
        Inl e \<Rightarrow> (db, Inl e)
      | Inr (db', a) \<Rightarrow> if commit_ok then (db', Inr a) else (db, Inl CommitFailed))"

text \<open>
  \<^verbatim>\<open>update(T).where(w).values(v)\<close>: every row that satisfies the condition is rewritten,
  the others are left alone, and \<^verbatim>\<open>rowcount\<close> is the number of rows that matched.
\<close>

definition sql_update :: "('r \<Rightarrow> bool) \<Rightarrow> ('r \<Rightarrow> 'r) \<Rightarrow> 'r list \<Rightarrow> 'r list \<times> nat" where
  "sql_update wh vals rows =
     (map (\<lambda>r. if wh r then vals r else r) rows, length (filter wh rows))"

text \<open>Python's \<^verbatim>\<open>str\<close> on an integer: its decimal digits, with a sign when negative.\<close>

definition digit_char :: "nat \<Rightarrow> char" where
  "digit_char d = ''0123456789'' ! d"

fun str_nat :: "nat \<Rightarrow> string" where
  "str_nat n = (if n < 10 then [digit_char n] else str_nat (n div 10) @ [digit_char (n mod 10)])"

declare str_nat.simps [simp del]

definition str :: "int \<Rightarrow> string" where
  "str i = (if i < 0 then CHR ''-'' # str_nat (nat (- i)) else str_nat (nat i))"

subsection \<open>Messages and outbox rows, shared by both services\<close>

text \<open>An \<^verbatim>\<open>aio_pika.Message\<close> as the code uses it, with the routing key it travels under.\<close>

record 'p message =
  message_id :: "string option"
  body :: 'p
  routing_key :: string

text \<open>The class \<^verbatim>\<open>Outbox\<close>, declared identically in both services.\<close>

record 'p outbox_row =
  ob_id :: int
  ob_routing_key :: string
  ob_payload :: 'p
  ob_processed :: bool

text \<open>The two events: the keys of the dictionaries the services serialise.\<close>

record order_created =
  oc_order_id :: int
  oc_user_id :: int
  oc_amount :: real

record payment_processed =
  pp_order_id :: int
  pp_status :: string
  pp_user_id :: int

section \<open>Payment service\<close>

record account =
  acc_user_id :: int
  balance :: real

record inbox_row =
  ib_message_id :: string
  ib_processed :: bool

record pay_db =
  accounts :: "account list"
  inbox :: "inbox_row list"
  pay_outbox :: "payment_processed outbox_row list"
  pay_outbox_seq :: int

subsection \<open>The debit consumer\<close>

text \<open>
  \<^verbatim>\<open>msg_id = message.message_id or str(hash(message.body))\<close>: the fallback is taken when
  the id is \<^verbatim>\<open>None\<close> or the empty string. Python's \<^verbatim>\<open>hash\<close> of a byte string is a
  parameter.
\<close>

definition dedup_id :: "('p \<Rightarrow> int) \<Rightarrow> 'p message \<Rightarrow> string" where
  "dedup_id hash m =
     (case message_id m of
        None \<Rightarrow> str (hash (body m))
      | Some s \<Rightarrow> if s = [] then str (hash (body m)) else s)"

datatype outcome = Duplicate | Settled string

text \<open>
  The statement
  \<^verbatim>\<open>update(Account).where(Account.user_id == user_id, Account.balance >= amount)
     .values(balance=Account.balance - amount)\<close>
  with its row count.
\<close>

definition debit_update ::
  "(real \<Rightarrow> real \<Rightarrow> real) \<Rightarrow> int \<Rightarrow> real \<Rightarrow> account list \<Rightarrow> account list \<times> nat" where
  "debit_update fsub user_id amount accs =
     sql_update (\<lambda>r. acc_user_id r = user_id \<and> balance r \<ge> amount)
                (\<lambda>r. r\<lparr>balance := fsub (balance r) amount\<rparr>) accs"

text \<open>
  The block under \<^verbatim>\<open>session.begin()\<close> in \<^verbatim>\<open>rabbitmq_consumer\<close>: the inbox check, the
  conditional update of the account, the inbox marker and the answer in the outbox.
\<close>

definition debit_block ::
  "(real \<Rightarrow> real \<Rightarrow> real) \<Rightarrow> string \<Rightarrow> order_created \<Rightarrow> pay_db
     \<Rightarrow> error + (pay_db \<times> outcome)" where
  "debit_block fsub msg_id data db =
     (if find (\<lambda>r. ib_message_id r = msg_id) (inbox db) \<noteq> None then Inr (db, Duplicate)
      else
        let user_id = oc_user_id data;
            amount = oc_amount data;
            order_id = oc_order_id data;
            (accs, rowcount) = debit_update fsub user_id amount (accounts db);
            success = (rowcount > 0);
            status = (if success then ''FINISHED'' else ''CANCELLED'');
            response_payload = \<lparr>pp_order_id = order_id, pp_status = status, pp_user_id = user_id\<rparr>
        in Inr (db\<lparr>accounts := accs,
                   inbox := inbox db @ [\<lparr>ib_message_id = msg_id, ib_processed = True\<rparr>],
                   pay_outbox := pay_outbox db @
                     [\<lparr>ob_id = pay_outbox_seq db, ob_routing_key = ''payment.processed'',
                       ob_payload = response_payload, ob_processed = False\<rparr>],
                   pay_outbox_seq := pay_outbox_seq db + 1\<rparr>,
                Settled status))"

text \<open>One message of the queue \<^verbatim>\<open>payment_tasks\<close>, handled inside \<^verbatim>\<open>message.process()\<close>.\<close>

definition on_order_created ::
  "(real \<Rightarrow> real \<Rightarrow> real) \<Rightarrow> (order_created \<Rightarrow> int) \<Rightarrow> bool \<Rightarrow> pay_db
     \<Rightarrow> order_created message \<Rightarrow> pay_db \<times> (error + outcome)" where
  "on_order_created fsub hash commit_ok db m =
     session_begin commit_ok db (debit_block fsub (dedup_id hash m) (body m))"

text \<open>
  The loop \<^verbatim>\<open>async for message in queue_iter\<close> over the messages delivered so far,
  each with the store's answer to its commit. An exception leaves
  \<^verbatim>\<open>message.process()\<close>, then the loop and the task: no later message is handled.
\<close>

fun rabbitmq_consumer ::
  "(real \<Rightarrow> real \<Rightarrow> real) \<Rightarrow> (order_created \<Rightarrow> int) \<Rightarrow> pay_db
     \<Rightarrow> (order_created message \<times> bool) list \<Rightarrow> pay_db \<times> outcome list \<times> error option" where
  "rabbitmq_consumer fsub hash db [] = (db, [], None)"
| "rabbitmq_consumer fsub hash db ((m, commit_ok) # ms) =
     (case on_order_created fsub hash commit_ok db m of
        (db', Inl e) \<Rightarrow> (db', [], Some e)
      | (db', Inr out) \<Rightarrow>
          (case rabbitmq_consumer fsub hash db' ms of
             (db'', outs, e) \<Rightarrow> (db'', out # outs, e)))"

subsection \<open>Accounts API\<close>

record balance_req =
  breq_user_id :: int
  breq_amount :: real

text \<open>\<^verbatim>\<open>session.get(Account, user_id)\<close>: the row with that primary key, if any.\<close>

definition get_account :: "account list \<Rightarrow> int \<Rightarrow> account option" where
  "get_account accs u = find (\<lambda>r. acc_user_id r = u) accs"

text \<open>
  \<^verbatim>\<open>POST /accounts\<close>: \<^verbatim>\<open>user_id\<close> is the primary key, so inserting a second row with a
  user id already present is refused by the store when the session flushes.
\<close>

definition create_account :: "bool \<Rightarrow> pay_db \<Rightarrow> balance_req \<Rightarrow> pay_db \<times> (error + string)" where
  "create_account commit_ok db req =
     session_begin commit_ok db
       (\<lambda>d. if get_account (accounts d) (breq_user_id req) \<noteq> None then Inl IntegrityError
            else Inr (d\<lparr>accounts := accounts d @ [\<lparr>acc_user_id = breq_user_id req, balance = 0\<rparr>]\<rparr>,
                      ''created''))"

text \<open>\<^verbatim>\<open>POST /accounts/topup\<close>: the row count of the update is not looked at.\<close>

definition topup ::
  "(real \<Rightarrow> real \<Rightarrow> real) \<Rightarrow> bool \<Rightarrow> pay_db \<Rightarrow> balance_req \<Rightarrow> pay_db \<times> (error + string)" where
  "topup fadd commit_ok db req =
     session_begin commit_ok db
       (\<lambda>d. Inr (d\<lparr>accounts :=
                     fst (sql_update (\<lambda>r. acc_user_id r = breq_user_id req)
                            (\<lambda>r. r\<lparr>balance := fadd (balance r) (breq_amount req)\<rparr>) (accounts d))\<rparr>,
                 ''ok''))"

text \<open>\<^verbatim>\<open>GET /accounts/{user_id}\<close>: 404 when there is no such account.\<close>

definition get_balance :: "pay_db \<Rightarrow> int \<Rightarrow> error + real" where
  "get_balance db user_id =
     (case get_account (accounts db) user_id of
        None \<Rightarrow> Inl NotFound
      | Some acc \<Rightarrow> Inr (balance acc))"

text \<open>The primary key of \<^verbatim>\<open>accounts\<close>: no two rows share a user id.\<close>

definition accounts_pk :: "pay_db \<Rightarrow> bool" where
  "accounts_pk db = distinct (map acc_user_id (accounts db))"

subsection \<open>The outbox relay\<close>

text \<open>
  \<^verbatim>\<open>select(Outbox).where(Outbox.processed == False).limit(10)
     .with_for_update(skip_locked=True)\<close>:
  at most ten unprocessed rows, leaving out the rows another transaction holds locked
  (the set \<open>locked\<close> of their ids). The statement has no \<^verbatim>\<open>ORDER BY\<close>; the model
  reads the table in insertion order.
\<close>

definition select_unprocessed :: "int set \<Rightarrow> 'p outbox_row list \<Rightarrow> 'p outbox_row list" where
  "select_unprocessed locked rows =
     take 10 (filter (\<lambda>r. ob_processed r = False \<and> ob_id r \<notin> locked) rows)"

text \<open>The message built for one row: body, \<^verbatim>\<open>message_id=str(msg.id)\<close>, the row's routing key.\<close>

definition outbox_message :: "'p outbox_row \<Rightarrow> 'p message" where
  "outbox_message msg =
     \<lparr>message_id = Some (str (ob_id msg)), body = ob_payload msg,
      routing_key = ob_routing_key msg\<rparr>"

text \<open>
  \<^verbatim>\<open>for msg in messages\<close>: publish, then set \<^verbatim>\<open>msg.processed = True\<close> on the loaded row.
  \<open>publish_ok\<close> says, by row id, whether the broker takes the message; a refused
  publish raises and ends the loop. The result is what reached the broker, the ids of
  the rows marked so far, and the exception if any.
\<close>

fun publish_each ::
  "(int \<Rightarrow> bool) \<Rightarrow> 'p outbox_row list \<Rightarrow> 'p message list \<times> int list \<times> error option" where
  "publish_each publish_ok [] = ([], [], None)"
| "publish_each publish_ok (msg # msgs) =
     (if publish_ok (ob_id msg) then
        (case publish_each publish_ok msgs of
           (published, marked, e) \<Rightarrow> (outbox_message msg # published, ob_id msg # marked, e))
      else ([], [], Some PublishFailed))"

text \<open>
  One pass of the \<^verbatim>\<open>while True\<close> loop of \<^verbatim>\<open>outbox_processor\<close> (the same code in both
  services) on an outbox table and the broker's log of published messages. The marks
  reach the table with the commit; what was published stays published whatever
  happens to the transaction. The \<^verbatim>\<open>except\<close> clause logs the exception and the loop
  goes on.
\<close>

definition outbox_batch ::
  "int set \<Rightarrow> (int \<Rightarrow> bool) \<Rightarrow> bool \<Rightarrow> 'p outbox_row list \<times> 'p message list
     \<Rightarrow> ('p outbox_row list \<times> 'p message list) \<times> error option" where
  "outbox_batch locked publish_ok commit_ok st =
     (case st of (outbox, broker) \<Rightarrow>
        let messages = select_unprocessed locked outbox;
            (published, marked, raised) = publish_each publish_ok messages;
            (outbox', r) =
               session_begin commit_ok outbox
                 (\<lambda>rows. case raised of
                     Some e \<Rightarrow> Inl e
                   | None \<Rightarrow>
                       Inr (map (\<lambda>r. if ob_id r \<in> set marked then r\<lparr>ob_processed := True\<rparr> else r) rows,
                            ()))
        in ((outbox', broker @ published), (case r of Inl e \<Rightarrow> Some e | Inr _ \<Rightarrow> None)))"

text \<open>The loop itself, for as many passes as there are environments in the list.\<close>

fun outbox_processor ::
  "(int set \<times> (int \<Rightarrow> bool) \<times> bool) list \<Rightarrow> 'p outbox_row list \<times> 'p message list
     \<Rightarrow> 'p outbox_row list \<times> 'p message list" where
  "outbox_processor [] st = st"
| "outbox_processor ((locked, publish_ok, commit_ok) # envs) st =
     outbox_processor envs (fst (outbox_batch locked publish_ok commit_ok st))"

section \<open>Order service\<close>

record order =
  ord_id :: int
  ord_user_id :: int
  ord_description :: string
  ord_amount :: real
  ord_status :: string

record order_db =
  orders :: "order list"
  orders_seq :: int
  ord_outbox :: "order_created outbox_row list"
  ord_outbox_seq :: int

subsection \<open>Creating an order\<close>

text \<open>\<^verbatim>\<open>class OrderReq(BaseModel)\<close>: three typed fields and no validator.\<close>

record order_req =
  req_user_id :: int
  req_description :: string
  req_amount :: real

record order_resp =
  resp_id :: int
  resp_status :: string

text \<open>Where the store, or the process, fails during \<^verbatim>\<open>create_order\<close>, if it does.\<close>

datatype fault = NoFault | FailFlush | FailAfterFlush | FailCommit

text \<open>
  \<^verbatim>\<open>POST /orders\<close>. The order is inserted by \<^verbatim>\<open>session.flush()\<close>, which gives it its id;
  the outbox row is added to the session and written when the block is left, just
  before the commit.
\<close>

definition create_order :: "fault \<Rightarrow> order_db \<Rightarrow> order_req \<Rightarrow> order_db \<times> (error + order_resp)" where
  "create_order fault db req =
     session_begin (fault \<noteq> FailCommit) db
       (\<lambda>d. if fault = FailFlush then Inl FlushFailed
            else
              let order = \<lparr>ord_id = orders_seq d, ord_user_id = req_user_id req,
                           ord_description = req_description req, ord_amount = req_amount req,
                           ord_status = ''NEW''\<rparr>;
                  d1 = d\<lparr>orders := orders d @ [order], orders_seq := orders_seq d + 1\<rparr>
              in if fault = FailAfterFlush then Inl Crashed
                 else
                   let payload = \<lparr>oc_order_id = ord_id order, oc_user_id = req_user_id req,
                                  oc_amount = req_amount req\<rparr>;
                       d2 = d1\<lparr>ord_outbox := ord_outbox d1 @
                                  [\<lparr>ob_id = ord_outbox_seq d1, ob_routing_key = ''order.created'',
                                    ob_payload = payload, ob_processed = False\<rparr>],
                                ord_outbox_seq := ord_outbox_seq d1 + 1\<rparr>
                   in Inr (d2, \<lparr>resp_id = ord_id order, resp_status = ''NEW''\<rparr>))"

subsection \<open>The notification hub\<close>

text \<open>
  \<^verbatim>\<open>ConnectionManager.active_connections: Dict[int, List[WebSocket]]\<close>. A web socket is
  known by its identity, a number.
\<close>

type_synonym websocket = nat

type_synonym active_connections = "int \<rightharpoonup> websocket list"

definition connect :: "websocket \<Rightarrow> int \<Rightarrow> active_connections \<Rightarrow> active_connections" where
  "connect ws user_id ac =
     (case ac user_id of
        None \<Rightarrow> ac(user_id \<mapsto> [ws])
      | Some conns \<Rightarrow> ac(user_id \<mapsto> conns @ [ws]))"

definition disconnect :: "websocket \<Rightarrow> int \<Rightarrow> active_connections \<Rightarrow> active_connections" where
  "disconnect ws user_id ac =
     (case ac user_id of
        None \<Rightarrow> ac
      | Some conns \<Rightarrow> if ws \<in> set conns then ac(user_id \<mapsto> remove1 ws conns) else ac)"

text \<open>
  \<^verbatim>\<open>for connection in self.active_connections[user_id]: await connection.send_text(message)\<close>.
  \<open>send_ok\<close> says which sockets take a send; on the others \<^verbatim>\<open>send_text\<close> raises, and
  nothing in \<^verbatim>\<open>send_to_user\<close> catches it. The result lists the sends that went through.
\<close>

fun send_each ::
  "(websocket \<Rightarrow> bool) \<Rightarrow> 'm \<Rightarrow> websocket list \<Rightarrow> (websocket \<times> 'm) list \<times> error option" where
  "send_each send_ok message [] = ([], None)"
| "send_each send_ok message (connection # rest) =
     (if send_ok connection then
        (case send_each send_ok message rest of
           (sent, e) \<Rightarrow> ((connection, message) # sent, e))
      else ([], Some SendFailed))"

definition send_to_user ::
  "(websocket \<Rightarrow> bool) \<Rightarrow> active_connections \<Rightarrow> 'm \<Rightarrow> int
     \<Rightarrow> (websocket \<times> 'm) list \<times> error option" where
  "send_to_user send_ok ac message user_id =
     (case ac user_id of
        None \<Rightarrow> ([], None)
      | Some conns \<Rightarrow> send_each send_ok message conns)"

subsection \<open>The order status consumer\<close>

text \<open>
  \<^verbatim>\<open>update(Order).where(Order.id == order_id).values(status=status)\<close>, in its own
  transaction.
\<close>

definition status_update :: "int \<Rightarrow> string \<Rightarrow> order list \<Rightarrow> order list \<times> nat" where
  "status_update order_id status rows =
     sql_update (\<lambda>r. ord_id r = order_id) (\<lambda>r. r\<lparr>ord_status := status\<rparr>) rows"

text \<open>
  A message of the queue \<^verbatim>\<open>order_updates\<close> together with its environment when it is
  handled: the store's answer to the commit, the connections registered at that time
  and the sockets that take a send.
\<close>

record pp_delivery =
  dl_message :: "payment_processed message"
  dl_commit_ok :: bool
  dl_connections :: active_connections
  dl_send_ok :: "websocket \<Rightarrow> bool"

text \<open>
  One message, inside \<^verbatim>\<open>message.process()\<close>: the status update commits first, the push
  follows outside the transaction.
\<close>

definition on_payment_processed ::
  "order_db \<Rightarrow> pp_delivery
     \<Rightarrow> order_db \<times> (websocket \<times> payment_processed) list \<times> error option" where
  "on_payment_processed db dl =
     (let data = body (dl_message dl);
          order_id = pp_order_id data;
          status = pp_status data;
          user_id = pp_user_id data
      in case session_begin (dl_commit_ok dl) db
                (\<lambda>d. Inr (d\<lparr>orders := fst (status_update order_id status (orders d))\<rparr>, ())) of
           (db', Inl e) \<Rightarrow> (db', [], Some e)
         | (db', Inr _) \<Rightarrow>
             (case send_to_user (dl_send_ok dl) (dl_connections dl) data user_id of
                (sent, e) \<Rightarrow> (db', sent, e)))"

text \<open>
  The loop over the deliveries; as in the payment service, an exception ends the task.
\<close>

fun payment_result_consumer ::
  "order_db \<Rightarrow> pp_delivery list
     \<Rightarrow> order_db \<times> (websocket \<times> payment_processed) list \<times> error option" where
  "payment_result_consumer db [] = (db, [], None)"
| "payment_result_consumer db (dl # dls) =
     (case on_payment_processed db dl of
        (db', sent, Some e) \<Rightarrow> (db', sent, Some e)
      | (db', sent, None) \<Rightarrow>
          (case payment_result_consumer db' dls of
             (db'', sent', e) \<Rightarrow> (db'', sent @ sent', e)))"

text \<open>The status of the order with a given id, as \<^verbatim>\<open>GET /orders\<close> shows it.\<close>

definition status_of :: "order_db \<Rightarrow> int \<Rightarrow> string option" where
  "status_of db order_id = map_option ord_status (find (\<lambda>r. ord_id r = order_id) (orders db))"

section \<open>The race resolution as the specification words it\<close>




section \<open>Sample states and messages\<close>

definition ex_hash :: "order_created \<Rightarrow> int" where
  "ex_hash data = 0"

definition ex_pay_db :: pay_db where
  "ex_pay_db =
     \<lparr>accounts = [\<lparr>acc_user_id = 7, balance = 100\<rparr>, \<lparr>acc_user_id = 8, balance = 30\<rparr>],
      inbox = [], pay_outbox = [], pay_outbox_seq = 1\<rparr>"

definition ex_order_msg :: "int \<Rightarrow> int \<Rightarrow> real \<Rightarrow> order_created message" where
  "ex_order_msg order_id user_id amount =
     \<lparr>message_id = Some (str order_id),
      body = \<lparr>oc_order_id = order_id, oc_user_id = user_id, oc_amount = amount\<rparr>,
      routing_key = ''order.created''\<rparr>"


definition ex_redeliveries :: "(order_created message \<times> bool) list" where
  "ex_redeliveries = [(ex_order_msg 1 7 40, True), (ex_order_msg 1 7 40, True)]"

definition ex_order_db :: order_db where
  "ex_order_db = \<lparr>orders = [], orders_seq = 1, ord_outbox = [], ord_outbox_seq = 1\<rparr>"

definition ex_req :: order_req where
  "ex_req = \<lparr>req_user_id = 7, req_description = ''book'', req_amount = 40\<rparr>"

definition ex_negative_req :: order_req where
  "ex_negative_req = \<lparr>req_user_id = 7, req_description = ''refund'', req_amount = - 5\<rparr>"

definition ex_finished_db :: order_db where
  "ex_finished_db =
     \<lparr>orders = [\<lparr>ord_id = 1, ord_user_id = 7, ord_description = ''book'', ord_amount = 40,
                  ord_status = ''FINISHED''\<rparr>],
      orders_seq = 2, ord_outbox = [], ord_outbox_seq = 2\<rparr>"

definition ex_send_ok :: "websocket \<Rightarrow> bool" where
  "ex_send_ok ws = (ws \<noteq> 10)"

definition ex_result :: "string \<Rightarrow> pp_delivery" where
  "ex_result status =
     \<lparr>dl_message = \<lparr>message_id = Some ''1'',
                      body = \<lparr>pp_order_id = 1, pp_status = status, pp_user_id = 7\<rparr>,
                      routing_key = ''payment.processed''\<rparr>,
      dl_commit_ok = True, dl_connections = Map.empty, dl_send_ok = ex_send_ok\<rparr>"

definition ex_connections :: active_connections where
  "ex_connections = connect 11 7 (connect 10 7 (connect 20 8 Map.empty))"

definition ex_payload :: payment_processed where
  "ex_payload = \<lparr>pp_order_id = 1, pp_status = ''FINISHED'', pp_user_id = 7\<rparr>"

definition ex_topup_req :: balance_req where
  "ex_topup_req = \<lparr>breq_user_id = 9, breq_amount = 50\<rparr>"

definition ex_outbox :: "payment_processed outbox_row list" where
  "ex_outbox =
     [\<lparr>ob_id = 1, ob_routing_key = ''payment.processed'',
       ob_payload = \<lparr>pp_order_id = 1, pp_status = ''FINISHED'', pp_user_id = 7\<rparr>,
       ob_processed = True\<rparr>,
      \<lparr>ob_id = 2, ob_routing_key = ''payment.processed'',
       ob_payload = \<lparr>pp_order_id = 2, pp_status = ''CANCELLED'', pp_user_id = 7\<rparr>,
       ob_processed = False\<rparr>,
      \<lparr>ob_id = 3, ob_routing_key = ''payment.processed'',
       ob_payload = \<lparr>pp_order_id = 3, pp_status = ''FINISHED'', pp_user_id = 8\<rparr>,
       ob_processed = False\<rparr>]"

definition ex_publish_ok :: "int \<Rightarrow> bool" where
  "ex_publish_ok row_id = (row_id \<noteq> 3)"

definition ex_publish_all :: "int \<Rightarrow> bool" where
  "ex_publish_all row_id = True"

text \<open>
  The doubles written \<^verbatim>\<open>0.1\<close> and \<^verbatim>\<open>0.9\<close>, and double precision subtraction at the
  values the samples use: \<^verbatim>\<open>1.0 - 0.1\<close> is \<open>32425917317067571 / 2^55\<close> exactly, which
  lies between two doubles and is rounded to the nearer one, the double \<^verbatim>\<open>0.9\<close>; the
  other differences taken in the samples are doubles themselves.
\<close>

definition ex_d01 :: real where
  "ex_d01 = 3602879701896397 / 36028797018963968"

definition ex_d09 :: real where
  "ex_d09 = 8106479329266893 / 9007199254740992"

definition ex_fsub :: "real \<Rightarrow> real \<Rightarrow> real" where
  "ex_fsub b a = (if b = 1 \<and> a = ex_d01 then ex_d09 else b - a)"



section \<open>Properties\<close>

subsection \<open>Lists of rows\<close>

lemma find_map_keep:
  assumes "\<And>r. P (f r) = P r"
  shows "find P (map f xs) = map_option f (find P xs)"
  using assms by (induction xs) auto

lemma find_Some_holds: "find P xs = Some r \<Longrightarrow> P r \<and> r \<in> set xs"
  by (induction xs) (auto split: if_splits)


lemma sql_update_none:
  "\<forall>r\<in>set rows. \<not> wh r \<Longrightarrow> sql_update wh vals rows = (rows, 0)"
  by (induction rows) (auto simp: sql_update_def)


subsection \<open>The conditional debit\<close>

lemma debit_block_fresh:
  assumes "find (\<lambda>r. ib_message_id r = i) (inbox db) = None"
  shows "debit_block fsub i d db =
     Inr (db\<lparr>accounts := fst (debit_update fsub (oc_user_id d) (oc_amount d) (accounts db)),
             inbox := inbox db @ [\<lparr>ib_message_id = i, ib_processed = True\<rparr>],
             pay_outbox := pay_outbox db @
               [\<lparr>ob_id = pay_outbox_seq db, ob_routing_key = ''payment.processed'',
                 ob_payload = \<lparr>pp_order_id = oc_order_id d,
                    pp_status = (if 0 < snd (debit_update fsub (oc_user_id d) (oc_amount d) (accounts db))
                                 then ''FINISHED'' else ''CANCELLED''),
                    pp_user_id = oc_user_id d\<rparr>,
                 ob_processed = False\<rparr>],
             pay_outbox_seq := pay_outbox_seq db + 1\<rparr>,
          Settled (if 0 < snd (debit_update fsub (oc_user_id d) (oc_amount d) (accounts db))
                   then ''FINISHED'' else ''CANCELLED''))"
  using assms by (simp add: debit_block_def debit_update_def Let_def split: prod.splits)







lemma debit_update_shape:
  "map acc_user_id (fst (debit_update fsub u a accs)) = map acc_user_id accs"
  by (simp add: debit_update_def sql_update_def comp_def)

lemma on_order_created_accounts:
  assumes "on_order_created fsub hash commit_ok db m = (db', res)"
  shows "accounts db' = accounts db \<or>
         accounts db' = fst (debit_update fsub (oc_user_id (body m)) (oc_amount (body m)) (accounts db))"
  using assms
  by (auto simp: on_order_created_def session_begin_def debit_block_def Let_def
      split: if_splits prod.splits)

text \<open>
  Claim C7. Whatever the message and whether or not its transaction commits, the
  accounts table keeps its rows and their user ids, and a row whose balance was not
  negative before the message is handled has a balance that is not negative after.
  Of the store's subtraction this uses one fact, which rounding to the nearest double
  gives as exact subtraction does: the difference it computes for an amount that the
  balance covers is not negative.
\<close>

theorem debit_never_negative:
  assumes run: "on_order_created fsub hash commit_ok db m = (db', res)"
    and rounding: "\<And>b a. a \<le> b \<Longrightarrow> 0 \<le> fsub b a"
  shows "length (accounts db') = length (accounts db) \<and>
         (\<forall>i < length (accounts db).
            acc_user_id (accounts db' ! i) = acc_user_id (accounts db ! i) \<and>
            (0 \<le> balance (accounts db ! i) \<longrightarrow> 0 \<le> balance (accounts db' ! i)))"
proof -
  let ?upd = "fst (debit_update fsub (oc_user_id (body m)) (oc_amount (body m)) (accounts db))"
  have len: "length ?upd = length (accounts db)"
    by (simp add: debit_update_def sql_update_def)
  have row: "acc_user_id (?upd ! i) = acc_user_id (accounts db ! i) \<and>
             (0 \<le> balance (accounts db ! i) \<longrightarrow> 0 \<le> balance (?upd ! i))"
    if "i < length (accounts db)" for i
    using that rounding by (simp add: debit_update_def sql_update_def)
  from on_order_created_accounts [OF run] show ?thesis
  proof
    assume "accounts db' = accounts db"
    then show ?thesis by simp
  next
    assume "accounts db' = ?upd"
    with len row show ?thesis by simp
  qed
qed

theorem debit_never_negative_witness:
  "length (accounts (fst (on_order_created ex_fsub ex_hash True ex_pay_db (ex_order_msg 1 7 100)))) = 2 \<and>
   0 \<le> balance (accounts ex_pay_db ! 0) \<and>
   0 \<le> balance (accounts (fst (on_order_created ex_fsub ex_hash True ex_pay_db (ex_order_msg 1 7 100))) ! 0) \<and>
   balance (accounts (fst (on_order_created ex_fsub ex_hash True ex_pay_db (ex_order_msg 1 7 100))) ! 0) = 0"
proof -
  have e: "accounts (fst (on_order_created ex_fsub ex_hash True ex_pay_db (ex_order_msg 1 7 100)))
      = [\<lparr>acc_user_id = 7, balance = 0\<rparr>, \<lparr>acc_user_id = 8, balance = 30\<rparr>]"
    by (simp add: on_order_created_def session_begin_def debit_block_def debit_update_def
        sql_update_def ex_pay_db_def ex_order_msg_def ex_fsub_def Let_def)
  have l: "length (accounts ex_pay_db) = 2" and p: "0 \<le> balance (accounts ex_pay_db ! 0)"
    by (simp_all add: ex_pay_db_def)
  have rounding: "0 \<le> ex_fsub b a" if "a \<le> b" for a b
    using that by (simp add: ex_fsub_def ex_d09_def)
  from debit_never_negative [where fsub = ex_fsub and hash = ex_hash and commit_ok = True
      and db = ex_pay_db and m = "ex_order_msg 1 7 100", OF surjective_pairing rounding] l p
  have "0 \<le> balance (accounts (fst (on_order_created ex_fsub ex_hash True ex_pay_db (ex_order_msg 1 7 100))) ! 0)"
    by simp
  with e l p show ?thesis by simp
qed

subsection \<open>Debits in arrival order\<close>


lemma find_append_fresh:
  "find P (xs @ [x]) = None \<longleftrightarrow> find P xs = None \<and> \<not> P x"
  by (induction xs) auto




subsection \<open>Redelivery\<close>

lemma duplicate_skipped:
  assumes "find (\<lambda>r. ib_message_id r = dedup_id hash m) (inbox db) \<noteq> None"
  shows "on_order_created fsub hash commit_ok db m =
           (db, if commit_ok then Inr Duplicate else Inl CommitFailed)"
  using assms by (simp add: on_order_created_def session_begin_def debit_block_def)

lemma marker_after_commit:
  assumes "on_order_created fsub hash True db m = (db1, res)"
  shows "find (\<lambda>r. ib_message_id r = dedup_id hash m) (inbox db1) \<noteq> None"
proof (cases "find (\<lambda>r. ib_message_id r = dedup_id hash m) (inbox db) = None")
  case True
  with assms have "inbox db1 = inbox db @ [\<lparr>ib_message_id = dedup_id hash m, ib_processed = True\<rparr>]"
    by (auto simp: on_order_created_def session_begin_def debit_block_fresh)
  then show ?thesis by (simp add: find_append_fresh)
next
  case False
  with assms duplicate_skipped[OF False, where commit_ok = True and fsub = fsub] show ?thesis by simp
qed

lemma redeliveries_skipped:
  assumes "find (\<lambda>r. ib_message_id r = i) (inbox db) \<noteq> None"
    and "\<forall>d\<in>set ds. dedup_id hash (fst d) = i"
    and "rabbitmq_consumer fsub hash db ds = (db', outs, e)"
  shows "db' = db \<and> set outs \<subseteq> {Duplicate}"
  using assms
proof (induction ds arbitrary: outs e)
  case Nil
  then show ?case by simp
next
  case (Cons d ds)
  obtain m ok where d: "d = (m, ok)" by (cases d)
  with Cons.prems have dup: "find (\<lambda>r. ib_message_id r = dedup_id hash m) (inbox db) \<noteq> None"
    by simp
  show ?case
  proof (cases ok)
    case True
    with Cons.prems(3) d duplicate_skipped[OF dup, where commit_ok = True and fsub = fsub]
    obtain outs1 where rest: "rabbitmq_consumer fsub hash db ds = (db', outs1, e)"
      and outs: "outs = Duplicate # outs1"
      by (auto split: prod.splits)
    from Cons.IH[OF Cons.prems(1) _ rest] Cons.prems(2) outs show ?thesis by simp
  next
    case False
    with Cons.prems(3) d duplicate_skipped[OF dup, where commit_ok = False and fsub = fsub]
    show ?thesis by simp
  qed
qed

text \<open>
  Claim C4. Once a message has been handled in a transaction that committed, any
  number of further deliveries with the same dedup identity, committing or not, leave
  the whole store as it was: the accounts, the inbox and the outbox are unchanged, and
  each delivery that is answered is answered as a duplicate. When the identity was
  not in the inbox before the first delivery, the store after all the deliveries
  holds the one conditional update of the accounts, one new inbox row, and one new
  outbox row, routed as "payment.processed" for the message's order.
\<close>

theorem debit_idempotent:
  assumes first: "on_order_created fsub hash True db m = (db1, res)"
    and same: "\<forall>d\<in>set ds. dedup_id hash (fst d) = dedup_id hash m"
    and again: "rabbitmq_consumer fsub hash db1 ds = (db2, outs, e)"
  shows "db2 = db1 \<and> accounts db2 = accounts db1 \<and> inbox db2 = inbox db1 \<and>
         pay_outbox db2 = pay_outbox db1 \<and> set outs \<subseteq> {Duplicate} \<and>
         (find (\<lambda>r. ib_message_id r = dedup_id hash m) (inbox db) = None \<longrightarrow>
            accounts db2 = fst (debit_update fsub (oc_user_id (body m)) (oc_amount (body m)) (accounts db)) \<and>
            inbox db2 = inbox db @ [\<lparr>ib_message_id = dedup_id hash m, ib_processed = True\<rparr>] \<and>
            pay_outbox db2 = pay_outbox db @ [last (pay_outbox db2)] \<and>
            ob_routing_key (last (pay_outbox db2)) = ''payment.processed'' \<and>
            pp_order_id (ob_payload (last (pay_outbox db2))) = oc_order_id (body m))"
proof -
  from redeliveries_skipped[OF marker_after_commit[OF first] same again]
  have eq: "db2 = db1" and outs: "set outs \<subseteq> {Duplicate}" by simp_all
  have "accounts db1 = fst (debit_update fsub (oc_user_id (body m)) (oc_amount (body m)) (accounts db)) \<and>
        inbox db1 = inbox db @ [\<lparr>ib_message_id = dedup_id hash m, ib_processed = True\<rparr>] \<and>
        pay_outbox db1 = pay_outbox db @ [last (pay_outbox db1)] \<and>
        ob_routing_key (last (pay_outbox db1)) = ''payment.processed'' \<and>
        pp_order_id (ob_payload (last (pay_outbox db1))) = oc_order_id (body m)"
    if fresh: "find (\<lambda>r. ib_message_id r = dedup_id hash m) (inbox db) = None"
    using first by (auto simp: on_order_created_def session_begin_def debit_block_fresh[OF fresh])
  with eq outs show ?thesis by simp
qed

theorem debit_idempotent_witness:
  "fst (rabbitmq_consumer ex_fsub ex_hash (fst (on_order_created ex_fsub ex_hash True ex_pay_db (ex_order_msg 1 7 40)))
          ex_redeliveries)
     = fst (on_order_created ex_fsub ex_hash True ex_pay_db (ex_order_msg 1 7 40)) \<and>
   accounts (fst (rabbitmq_consumer ex_fsub ex_hash
       (fst (on_order_created ex_fsub ex_hash True ex_pay_db (ex_order_msg 1 7 40))) ex_redeliveries))
     = [\<lparr>acc_user_id = 7, balance = 60\<rparr>, \<lparr>acc_user_id = 8, balance = 30\<rparr>] \<and>
   length (inbox (fst (rabbitmq_consumer ex_fsub ex_hash
       (fst (on_order_created ex_fsub ex_hash True ex_pay_db (ex_order_msg 1 7 40))) ex_redeliveries))) = 1 \<and>
   length (pay_outbox (fst (rabbitmq_consumer ex_fsub ex_hash
       (fst (on_order_created ex_fsub ex_hash True ex_pay_db (ex_order_msg 1 7 40))) ex_redeliveries))) = 1"
proof -
  let ?db1 = "fst (on_order_created ex_fsub ex_hash True ex_pay_db (ex_order_msg 1 7 40))"
  let ?r = "rabbitmq_consumer ex_fsub ex_hash ?db1 ex_redeliveries"
  have same: "\<forall>d\<in>set ex_redeliveries. dedup_id ex_hash (fst d) = dedup_id ex_hash (ex_order_msg 1 7 40)"
    by (simp add: ex_redeliveries_def)
  have again: "?r = (fst ?r, fst (snd ?r), snd (snd ?r))"
    by simp
  have fresh: "find (\<lambda>r. ib_message_id r = dedup_id ex_hash (ex_order_msg 1 7 40)) (inbox ex_pay_db) = None"
    by (simp add: ex_pay_db_def)
  have upd: "fst (debit_update ex_fsub 7 40 (accounts ex_pay_db)) =
      [\<lparr>acc_user_id = 7, balance = 60\<rparr>, \<lparr>acc_user_id = 8, balance = 30\<rparr>]"
    by (simp add: debit_update_def sql_update_def ex_pay_db_def ex_fsub_def)
  have empty: "inbox ex_pay_db = []" "pay_outbox ex_pay_db = []"
    by (simp_all add: ex_pay_db_def)
  have msg: "oc_user_id (body (ex_order_msg 1 7 40)) = 7" "oc_amount (body (ex_order_msg 1 7 40)) = 40"
    by (simp_all add: ex_order_msg_def)
  note t = debit_idempotent [where fsub = ex_fsub, OF surjective_pairing same again]
  from t have 1: "fst ?r = ?db1" by blast
  from t fresh have 2: "accounts (fst ?r) =
      fst (debit_update ex_fsub (oc_user_id (body (ex_order_msg 1 7 40)))
             (oc_amount (body (ex_order_msg 1 7 40))) (accounts ex_pay_db))"
    by blast
  from t fresh have 3: "inbox (fst ?r) = inbox ex_pay_db @
           [\<lparr>ib_message_id = dedup_id ex_hash (ex_order_msg 1 7 40), ib_processed = True\<rparr>]"
    by blast
  from t fresh have 4: "pay_outbox (fst ?r) = pay_outbox ex_pay_db @ [last (pay_outbox (fst ?r))]"
    by blast
  from 2 have 2: "accounts (fst ?r) = [\<lparr>acc_user_id = 7, balance = 60\<rparr>, \<lparr>acc_user_id = 8, balance = 30\<rparr>]"
    by (simp only: msg upd)
  from 3 have 3: "length (inbox (fst ?r)) = 1"
    by (simp only: empty append_Nil list.size One_nat_def add_0)
  from 4 have "length (pay_outbox (fst ?r)) = length [last (pay_outbox (fst ?r))]"
    by (simp only: empty append_Nil)
  then have 4: "length (pay_outbox (fst ?r)) = 1"
    by (simp only: list.size One_nat_def add_0)
  from 1 2 3 4 show ?thesis by blast
qed

subsection \<open>Creating an order\<close>

lemma create_order_NoFault:
  "create_order NoFault db req =
     (db\<lparr>orders := orders db @
            [\<lparr>ord_id = orders_seq db, ord_user_id = req_user_id req,
              ord_description = req_description req, ord_amount = req_amount req,
              ord_status = ''NEW''\<rparr>],
          orders_seq := orders_seq db + 1,
          ord_outbox := ord_outbox db @
            [\<lparr>ob_id = ord_outbox_seq db, ob_routing_key = ''order.created'',
              ob_payload = \<lparr>oc_order_id = orders_seq db, oc_user_id = req_user_id req,
                             oc_amount = req_amount req\<rparr>,
              ob_processed = False\<rparr>],
          ord_outbox_seq := ord_outbox_seq db + 1\<rparr>,
      Inr \<lparr>resp_id = orders_seq db, resp_status = ''NEW''\<rparr>)"
  by (simp add: create_order_def session_begin_def Let_def)

lemma create_order_fault:
  "fault \<noteq> NoFault \<Longrightarrow> \<exists>e. create_order fault db req = (db, Inl e)"
  by (cases fault) (simp_all add: create_order_def session_begin_def Let_def)

text \<open>
  Claim C3. A call of the order-creation endpoint that returns has appended to the
  orders table one row with status NEW and to the outbox one unprocessed row routed
  as "order.created" whose payload carries that order's id, the user id and the
  amount, and it returns that id with status "NEW". A call that raises, because the
  flush fails, the process fails between the two inserts or the commit fails, leaves
  the store as it was: neither row exists. Without a fault the call returns.
\<close>

theorem create_order_atomic:
  assumes run: "create_order fault db req = (db', res)"
  shows "(\<forall>resp. res = Inr resp \<longrightarrow>
            resp = \<lparr>resp_id = orders_seq db, resp_status = ''NEW''\<rparr> \<and>
            orders db' = orders db @
              [\<lparr>ord_id = resp_id resp, ord_user_id = req_user_id req,
                ord_description = req_description req, ord_amount = req_amount req,
                ord_status = ''NEW''\<rparr>] \<and>
            ord_outbox db' = ord_outbox db @
              [\<lparr>ob_id = ord_outbox_seq db, ob_routing_key = ''order.created'',
                ob_payload = \<lparr>oc_order_id = resp_id resp, oc_user_id = req_user_id req,
                               oc_amount = req_amount req\<rparr>,
                ob_processed = False\<rparr>]) \<and>
         (\<forall>e. res = Inl e \<longrightarrow>
            db' = db \<and> orders db' = orders db \<and> ord_outbox db' = ord_outbox db) \<and>
         (fault = NoFault \<longrightarrow> (\<exists>resp. res = Inr resp)) \<and>
         (fault \<noteq> NoFault \<longrightarrow> (\<exists>e. res = Inl e))"
proof (cases "fault = NoFault")
  case True
  with run create_order_NoFault[of db req] show ?thesis by auto
next
  case False
  with run create_order_fault[OF False, of db req] show ?thesis by auto
qed

theorem create_order_atomic_witness:
  "snd (create_order NoFault ex_order_db ex_req) = Inr \<lparr>resp_id = 1, resp_status = ''NEW''\<rparr> \<and>
   orders (fst (create_order NoFault ex_order_db ex_req)) =
     [\<lparr>ord_id = 1, ord_user_id = 7, ord_description = ''book'', ord_amount = 40, ord_status = ''NEW''\<rparr>] \<and>
   ord_outbox (fst (create_order NoFault ex_order_db ex_req)) =
     [\<lparr>ob_id = 1, ob_routing_key = ''order.created'',
       ob_payload = \<lparr>oc_order_id = 1, oc_user_id = 7, oc_amount = 40\<rparr>, ob_processed = False\<rparr>] \<and>
   orders (fst (create_order FailAfterFlush ex_order_db ex_req)) = [] \<and>
   ord_outbox (fst (create_order FailAfterFlush ex_order_db ex_req)) = [] \<and>
   orders (fst (create_order FailCommit ex_order_db ex_req)) = [] \<and>
   ord_outbox (fst (create_order FailCommit ex_order_db ex_req)) = []"
proof -
  have db: "orders ex_order_db = []" "ord_outbox ex_order_db = []" "orders_seq ex_order_db = 1"
    "ord_outbox_seq ex_order_db = 1"
    by (simp_all add: ex_order_db_def)
  have req: "req_user_id ex_req = 7" "req_description ex_req = ''book''" "req_amount ex_req = 40"
    by (simp_all add: ex_req_def)
  note ok = create_order_atomic [OF surjective_pairing, of NoFault ex_order_db ex_req]
  note crash = create_order_atomic [OF surjective_pairing, of FailAfterFlush ex_order_db ex_req]
  note nocommit = create_order_atomic [OF surjective_pairing, of FailCommit ex_order_db ex_req]
  from ok obtain resp where r: "snd (create_order NoFault ex_order_db ex_req) = Inr resp"
    by blast
  with ok have "resp = \<lparr>resp_id = 1, resp_status = ''NEW''\<rparr>"
    and "orders (fst (create_order NoFault ex_order_db ex_req)) =
     [\<lparr>ord_id = 1, ord_user_id = 7, ord_description = ''book'', ord_amount = 40, ord_status = ''NEW''\<rparr>]"
    and "ord_outbox (fst (create_order NoFault ex_order_db ex_req)) =
     [\<lparr>ob_id = 1, ob_routing_key = ''order.created'',
       ob_payload = \<lparr>oc_order_id = 1, oc_user_id = 7, oc_amount = 40\<rparr>, ob_processed = False\<rparr>]"
    by (simp_all add: db req)
  moreover from crash have "orders (fst (create_order FailAfterFlush ex_order_db ex_req)) = []"
    and "ord_outbox (fst (create_order FailAfterFlush ex_order_db ex_req)) = []"
    by (auto simp: db)
  moreover from nocommit have "orders (fst (create_order FailCommit ex_order_db ex_req)) = []"
    and "ord_outbox (fst (create_order FailCommit ex_order_db ex_req)) = []"
    by (auto simp: db)
  ultimately show ?thesis using r by simp
qed

text \<open>
  Claim C8 as stated fails: \<^verbatim>\<open>OrderReq\<close> declares \<^verbatim>\<open>amount: float\<close> with no bound and
  \<^verbatim>\<open>create_order\<close> does not look at the sign, so a request with amount \<open>-5\<close> is accepted
  and its order row is created.
\<close>

theorem create_order_nonpositive_counterexample:
  "req_amount ex_negative_req \<le> 0 \<and>
   snd (create_order NoFault ex_order_db ex_negative_req) = Inr \<lparr>resp_id = 1, resp_status = ''NEW''\<rparr> \<and>
   orders (fst (create_order NoFault ex_order_db ex_negative_req)) =
     [\<lparr>ord_id = 1, ord_user_id = 7, ord_description = ''refund'', ord_amount = - 5,
       ord_status = ''NEW''\<rparr>]"
  by (simp add: create_order_def session_begin_def Let_def ex_order_db_def ex_negative_req_def)

text \<open>
  Claim C8, amended. The order-creation call accepts a request whatever its amount:
  when the store does not fail, it returns the new order id with status "NEW" and
  the order row it inserts carries the amount of the request, positive or not.
\<close>

theorem create_order_any_amount:
  "snd (create_order NoFault db req) = Inr \<lparr>resp_id = orders_seq db, resp_status = ''NEW''\<rparr> \<and>
   orders (fst (create_order NoFault db req)) = orders db @
     [\<lparr>ord_id = orders_seq db, ord_user_id = req_user_id req,
       ord_description = req_description req, ord_amount = req_amount req,
       ord_status = ''NEW''\<rparr>]"
  by (simp add: create_order_NoFault)

subsection \<open>The order status consumer\<close>

lemma status_of_update:
  "status_of (db\<lparr>orders := fst (status_update i s (orders db))\<rparr>) k =
     (if k = i then map_option (\<lambda>_. s) (status_of db k) else status_of db k)"
proof -
  let ?f = "\<lambda>r. if ord_id r = i then r\<lparr>ord_status := s\<rparr> else r"
  have m: "find (\<lambda>r. ord_id r = k) (map ?f (orders db)) = map_option ?f (find (\<lambda>r. ord_id r = k) (orders db))"
    by (rule find_map_keep) simp
  have key: "ord_id r = k" if "find (\<lambda>r. ord_id r = k) (orders db) = Some r" for r
    using find_Some_holds[OF that] by simp
  have unfold: "status_of (db\<lparr>orders := fst (status_update i s (orders db))\<rparr>) k =
      map_option ord_status (map_option ?f (find (\<lambda>r. ord_id r = k) (orders db)))"
    by (simp add: status_of_def status_update_def sql_update_def m)
  show ?thesis
  proof (cases "find (\<lambda>r. ord_id r = k) (orders db)")
    case None
    then show ?thesis unfolding unfold by (auto simp: status_of_def)
  next
    case (Some r)
    from key[OF Some] Some show ?thesis unfolding unfold by (auto simp: status_of_def)
  qed
qed

lemma on_payment_processed_orders:
  assumes "on_payment_processed db dl = (db', sent, e)"
  shows "db' = db \<or>
         db' = db\<lparr>orders := fst (status_update (pp_order_id (body (dl_message dl)))
                                   (pp_status (body (dl_message dl))) (orders db))\<rparr>"
proof (cases "dl_commit_ok dl")
  case True
  with assms show ?thesis
    by (simp add: on_payment_processed_def session_begin_def Let_def split: prod.splits)
next
  case False
  with assms show ?thesis
    by (simp add: on_payment_processed_def session_begin_def Let_def)
qed

lemma status_kept_by_step:
  assumes "status_of db k = Some s"
    and "pp_order_id (body (dl_message dl)) = k \<longrightarrow> pp_status (body (dl_message dl)) = s"
    and "on_payment_processed db dl = (db', sent, e)"
  shows "status_of db' k = Some s"
  using on_payment_processed_orders[OF assms(3)] assms(1,2)
  by (auto simp: status_of_update)

lemma status_kept_by_loop:
  assumes "status_of db k = Some s"
    and "\<forall>dl\<in>set dls. pp_order_id (body (dl_message dl)) = k \<longrightarrow> pp_status (body (dl_message dl)) = s"
    and "payment_result_consumer db dls = (db', sent, e)"
  shows "status_of db' k = Some s"
  using assms
proof (induction dls arbitrary: db sent e)
  case Nil
  then show ?case by simp
next
  case (Cons dl dls)
  obtain db1 sent1 e1 where step: "on_payment_processed db dl = (db1, sent1, e1)"
    by (cases "on_payment_processed db dl")
  from Cons.prems(1,2) have k1: "status_of db1 k = Some s"
    by (intro status_kept_by_step[OF _ _ step]) simp_all
  show ?case
  proof (cases e1)
    case None
    with Cons.prems(3) step obtain sent2 where
      rest: "payment_result_consumer db1 dls = (db', sent2, e)"
      by (auto split: prod.splits)
    from Cons.IH[OF k1 _ rest] Cons.prems(2) show ?thesis by simp
  next
    case (Some err)
    with Cons.prems(3) step have "db' = db1" by simp
    with k1 show ?thesis by simp
  qed
qed

lemma status_update_twice:
  "fst (status_update i s (fst (status_update i s rows))) = fst (status_update i s rows)"
  by (simp add: status_update_def sql_update_def)

lemma ex_step:
  "on_payment_processed ex_finished_db (ex_result ''CANCELLED'') =
     (ex_finished_db\<lparr>orders := [\<lparr>ord_id = 1, ord_user_id = 7, ord_description = ''book'',
          ord_amount = 40, ord_status = ''CANCELLED''\<rparr>]\<rparr>, [], None)"
  by (simp add: on_payment_processed_def session_begin_def status_update_def sql_update_def
      send_to_user_def ex_result_def ex_finished_db_def)

text \<open>
  Claim C5 as stated fails: the update of the status has no condition on the status
  the order has, so an event that carries CANCELLED for an order that is FINISHED
  changes it.
\<close>

theorem status_overwritten_counterexample:
  "status_of ex_finished_db 1 = Some ''FINISHED'' \<and>
   status_of (fst (payment_result_consumer ex_finished_db [ex_result ''CANCELLED''])) 1
     = Some ''CANCELLED''"
  by (simp add: ex_step status_of_def) (simp add: ex_finished_db_def)

text \<open>
  Claim C5, amended. The status of an order stays what it is under every sequence of
  "payment.processed" deliveries in which each event for that order carries that same
  status, whatever the events for other orders, whether the transactions commit and
  wherever the loop stops; and applying the same update a second time changes no row.
\<close>

theorem status_stable_under_redelivery:
  assumes "status_of db k = Some s"
    and "\<forall>dl\<in>set dls. pp_order_id (body (dl_message dl)) = k \<longrightarrow> pp_status (body (dl_message dl)) = s"
    and "payment_result_consumer db dls = (db', sent, e)"
  shows "status_of db' k = Some s \<and>
         fst (status_update k s (fst (status_update k s (orders db)))) = fst (status_update k s (orders db))"
  using status_kept_by_loop [OF assms] status_update_twice by simp

theorem status_stable_under_redelivery_witness:
  "status_of ex_finished_db 1 = Some ''FINISHED'' \<and>
   status_of (fst (payment_result_consumer ex_finished_db
       [ex_result ''FINISHED'', ex_result ''FINISHED''])) 1 = Some ''FINISHED''"
proof -
  let ?dls = "[ex_result ''FINISHED'', ex_result ''FINISHED'']"
  let ?r = "payment_result_consumer ex_finished_db ?dls"
  have before: "status_of ex_finished_db 1 = Some ''FINISHED''"
    by (simp add: status_of_def ex_finished_db_def)
  have same: "\<forall>dl\<in>set ?dls. pp_order_id (body (dl_message dl)) = 1 \<longrightarrow>
      pp_status (body (dl_message dl)) = ''FINISHED''"
    by (simp add: ex_result_def)
  have run: "?r = (fst ?r, fst (snd ?r), snd (snd ?r))"
    by simp
  from status_stable_under_redelivery [OF before same run] before show ?thesis
    by blast
qed

subsection \<open>The notification hub\<close>

lemma send_each_takeWhile:
  "send_each send_ok message conns =
     (map (\<lambda>c. (c, message)) (takeWhile send_ok conns),
      if \<forall>c\<in>set conns. send_ok c then None else Some SendFailed)"
  by (induction conns) simp_all

text \<open>
  Claim C9, amended. Every send that went through carried the payload unchanged to a
  connection registered for the user of the event, so none went to a connection
  registered only under another user. The connections of the user are served in the
  order they registered, up to the first one whose send fails: that failure is
  raised and the connections after it get nothing. When no send fails, each
  connection of the user gets the payload once.
\<close>

theorem push_delivery:
  assumes run: "send_to_user send_ok ac message u = (sent, e)"
  shows "(\<forall>p\<in>set sent. snd p = message \<and> (\<exists>conns. ac u = Some conns \<and> fst p \<in> set conns)) \<and>
         (\<forall>conns. ac u = Some conns \<longrightarrow>
            sent = map (\<lambda>c. (c, message)) (takeWhile send_ok conns) \<and>
            (e = None \<longleftrightarrow> (\<forall>c\<in>set conns. send_ok c)) \<and>
            ((\<forall>c\<in>set conns. send_ok c) \<longrightarrow> map fst sent = conns)) \<and>
         (ac u = None \<longrightarrow> sent = [] \<and> e = None)"
proof (cases "ac u")
  case None
  with run show ?thesis by (simp add: send_to_user_def)
next
  case (Some conns)
  with run have sent: "sent = map (\<lambda>c. (c, message)) (takeWhile send_ok conns)"
    and e: "e = (if \<forall>c\<in>set conns. send_ok c then None else Some SendFailed)"
    by (simp_all add: send_to_user_def send_each_takeWhile)
  have "fst p \<in> set conns \<and> snd p = message" if "p \<in> set sent" for p
    using that set_takeWhileD[of _ send_ok conns] by (auto simp: sent)
  moreover have "map fst sent = conns" if "\<forall>c\<in>set conns. send_ok c"
    using that by (simp add: sent comp_def takeWhile_eq_all_conv[THEN iffD2])
  ultimately show ?thesis using Some e sent by auto
qed

lemma ex_connections_eval:
  "ex_connections 7 = Some [10, 11]" "ex_connections 8 = Some [20]" "ex_connections 9 = None"
  by (simp_all add: ex_connections_def connect_def)

theorem push_delivery_witness:
  "ex_connections 8 = Some [20] \<and>
   send_to_user ex_send_ok ex_connections ex_payload 8 = ([(20, ex_payload)], None)"
proof -
  let ?r = "send_to_user ex_send_ok ex_connections ex_payload 8"
  have ok: "\<forall>c\<in>set [20]. ex_send_ok c"
    by (simp add: ex_send_ok_def)
  from push_delivery [OF surjective_pairing, of ex_send_ok ex_connections ex_payload 8]
    ex_connections_eval(2) ok
  have "fst ?r = map (\<lambda>c. (c, ex_payload)) (takeWhile ex_send_ok [20])" and "snd ?r = None"
    by blast+
  with ok have "fst ?r = [(20, ex_payload)]" and "snd ?r = None"
    by simp_all
  then have "?r = ([(20, ex_payload)], None)"
    by (simp add: prod_eq_iff)
  with ex_connections_eval(2) show ?thesis by simp
qed

text \<open>
  Claim C9 as stated fails: user 7 has the connections 10 and 11, the send to 10
  fails, and connection 11, which would take the send, is not served.
\<close>

theorem push_blocked_counterexample:
  "ex_connections 7 = Some [10, 11] \<and> ex_send_ok 11 \<and>
   send_to_user ex_send_ok ex_connections ex_payload 7 = ([], Some SendFailed)"
  by (simp add: ex_connections_eval send_to_user_def ex_send_ok_def)

subsection \<open>Top-up\<close>

lemma topup_response: "snd (topup fadd True db req) = Inr ''ok''"
  by (simp add: topup_def session_begin_def)

lemma topup_no_row:
  assumes "get_account (accounts db) (breq_user_id req) = None"
  shows "fst (sql_update (\<lambda>r. acc_user_id r = breq_user_id req)
            (\<lambda>r. r\<lparr>balance := fadd (balance r) (breq_amount req)\<rparr>) (accounts db)) = accounts db"
proof -
  from assms have "\<forall>r\<in>set (accounts db). \<not> acc_user_id r = breq_user_id req"
    by (simp add: get_account_def find_None_iff)
  from sql_update_none[OF this] show ?thesis by simp
qed

text \<open>
  Claim C10. A top-up for a user id that has no account returns "ok" and leaves the
  store as it was (also when the commit fails, where the call raises instead). The
  answer is the one every committed top-up gives, for any store and request, so it
  does not tell a missing account from an existing one; the balance query for that
  user id answers not-found.
\<close>

theorem topup_missing_account:
  assumes "get_account (accounts db) (breq_user_id req) = None"
  shows "topup fadd True db req = (db, Inr ''ok'') \<and>
         fst (topup fadd False db req) = db \<and>
         get_balance db (breq_user_id req) = Inl NotFound \<and>
         snd (topup fadd True db req) = snd (topup fadd' True db' req')"
  using assms topup_no_row[OF assms]
  by (simp add: topup_def session_begin_def get_balance_def)

theorem topup_missing_account_witness:
  "get_account (accounts ex_pay_db) (breq_user_id ex_topup_req) = None \<and>
   topup (+) True ex_pay_db ex_topup_req = (ex_pay_db, Inr ''ok'') \<and>
   get_balance ex_pay_db 9 = Inl NotFound"
proof -
  have none: "get_account (accounts ex_pay_db) (breq_user_id ex_topup_req) = None"
    by (simp add: get_account_def ex_pay_db_def ex_topup_req_def)
  have nine: "breq_user_id ex_topup_req = 9"
    by (simp add: ex_topup_req_def)
  from topup_missing_account [OF none] none nine show ?thesis
    by simp
qed

subsection \<open>The outbox relay\<close>

lemma publish_each_takeWhile:
  "publish_each publish_ok msgs =
     (map outbox_message (takeWhile (\<lambda>r. publish_ok (ob_id r)) msgs),
      map ob_id (takeWhile (\<lambda>r. publish_ok (ob_id r)) msgs),
      if \<forall>r\<in>set msgs. publish_ok (ob_id r) then None else Some PublishFailed)"
  by (induction msgs) simp_all

lemma outbox_batch_all_published:
  assumes "\<forall>r\<in>set (select_unprocessed locked outbox). publish_ok (ob_id r)"
  shows "outbox_batch locked publish_ok commit_ok (outbox, broker) =
     ((if commit_ok
       then map (\<lambda>r. if ob_id r \<in> ob_id ` set (select_unprocessed locked outbox)
                      then r\<lparr>ob_processed := True\<rparr> else r) outbox
       else outbox,
       broker @ map outbox_message (select_unprocessed locked outbox)),
      if commit_ok then None else Some CommitFailed)"
proof -
  from assms have tw: "takeWhile (\<lambda>r. publish_ok (ob_id r)) (select_unprocessed locked outbox)
      = select_unprocessed locked outbox"
    by (simp add: takeWhile_eq_all_conv)
  show ?thesis
    using assms by (simp add: outbox_batch_def publish_each_takeWhile tw session_begin_def Let_def)
qed

lemma outbox_batch_publish_fails:
  assumes "\<exists>r\<in>set (select_unprocessed locked outbox). \<not> publish_ok (ob_id r)"
  shows "outbox_batch locked publish_ok commit_ok (outbox, broker) =
     ((outbox,
       broker @ map outbox_message
         (takeWhile (\<lambda>r. publish_ok (ob_id r)) (select_unprocessed locked outbox))),
      Some PublishFailed)"
  using assms by (simp add: outbox_batch_def publish_each_takeWhile session_begin_def Let_def)

lemma select_unprocessed_rows:
  assumes "r \<in> set (select_unprocessed locked outbox)"
  shows "r \<in> set outbox" and "ob_processed r = False" and "ob_id r \<notin> locked"
  using assms set_take_subset[of 10 "filter (\<lambda>r. ob_processed r = False \<and> ob_id r \<notin> locked) outbox"]
  by (auto simp: select_unprocessed_def)

lemma distinct_key_unique:
  "distinct (map k xs) \<Longrightarrow> x \<in> set xs \<Longrightarrow> y \<in> set xs \<Longrightarrow> k x = k y \<Longrightarrow> x = y"
  by (meson distinct_map inj_onD)

text \<open>
  Claim C6. One pass of the relay, in either service. When the broker takes every
  selected row and the commit succeeds, the broker has received, in order, one
  message per selected row, with the decimal form of the row's id as message id, the
  row's payload as body and the row's routing key, and the table after the pass is
  the table before it with the rows of the selected ids marked processed and nothing
  else changed: every selected row is there as processed, no later pass selects a
  row with one of these ids again, and with unique row ids the rows that were not
  selected are untouched. When the broker refuses one of the selected rows, the pass ends with
  the publish error and the table is as before the pass: every selected row is still
  there, unprocessed, and the next pass selects the same rows. A failed commit
  leaves the table unchanged as well.
\<close>

theorem outbox_batch_all_or_nothing:
  assumes run: "outbox_batch locked publish_ok commit_ok (outbox, broker) = ((outbox', broker'), err)"
  shows "((\<forall>r\<in>set (select_unprocessed locked outbox). publish_ok (ob_id r)) \<and> commit_ok \<longrightarrow>
            err = None \<and>
            broker' = broker @
              map (\<lambda>r. \<lparr>message_id = Some (str (ob_id r)), body = ob_payload r,
                         routing_key = ob_routing_key r\<rparr>) (select_unprocessed locked outbox) \<and>
            outbox' =
              map (\<lambda>r. if ob_id r \<in> ob_id ` set (select_unprocessed locked outbox)
                        then r\<lparr>ob_processed := True\<rparr> else r) outbox \<and>
            (\<forall>later. \<forall>r\<in>set (select_unprocessed later outbox').
               ob_id r \<notin> ob_id ` set (select_unprocessed locked outbox)) \<and>
            (\<forall>r\<in>set (select_unprocessed locked outbox). r\<lparr>ob_processed := True\<rparr> \<in> set outbox') \<and>
            (distinct (map ob_id outbox) \<longrightarrow>
               (\<forall>r\<in>set outbox. r \<notin> set (select_unprocessed locked outbox) \<longrightarrow> r \<in> set outbox'))) \<and>
         ((\<exists>r\<in>set (select_unprocessed locked outbox). \<not> publish_ok (ob_id r)) \<longrightarrow>
            err = Some PublishFailed \<and> outbox' = outbox \<and>
            (\<forall>r\<in>set (select_unprocessed locked outbox). r \<in> set outbox' \<and> ob_processed r = False) \<and>
            select_unprocessed locked outbox' = select_unprocessed locked outbox) \<and>
         (\<not> commit_ok \<longrightarrow> outbox' = outbox)"
proof -
  let ?batch = "select_unprocessed locked outbox"
  let ?mark = "\<lambda>r. if ob_id r \<in> ob_id ` set ?batch then r\<lparr>ob_processed := True\<rparr> else r"
  have ok: "err = None \<and>
            broker' = broker @
              map (\<lambda>r. \<lparr>message_id = Some (str (ob_id r)), body = ob_payload r,
                         routing_key = ob_routing_key r\<rparr>) ?batch \<and>
            outbox' = map ?mark outbox \<and>
            (\<forall>later. \<forall>r\<in>set (select_unprocessed later outbox'). ob_id r \<notin> ob_id ` set ?batch) \<and>
            (\<forall>r\<in>set ?batch. r\<lparr>ob_processed := True\<rparr> \<in> set outbox') \<and>
            (distinct (map ob_id outbox) \<longrightarrow>
               (\<forall>r\<in>set outbox. r \<notin> set ?batch \<longrightarrow> r \<in> set outbox'))"
    if all: "\<forall>r\<in>set ?batch. publish_ok (ob_id r)" and c: commit_ok
  proof -
    from run outbox_batch_all_published[OF all, of commit_ok broker] c
    have o: "outbox' = map ?mark outbox"
      and b: "broker' = broker @ map outbox_message ?batch"
      and e: "err = None"
      by simp_all
    have marked: "r\<lparr>ob_processed := True\<rparr> \<in> set outbox'" if "r \<in> set ?batch" for r
    proof -
      from select_unprocessed_rows(1)[OF that] have "?mark r \<in> set outbox'"
        unfolding o by simp
      with that show ?thesis by auto
    qed
    have kept: "r \<in> set outbox'"
      if d: "distinct (map ob_id outbox)" and r: "r \<in> set outbox" and n: "r \<notin> set ?batch" for r
    proof -
      have "ob_id r \<notin> ob_id ` set ?batch"
      proof
        assume "ob_id r \<in> ob_id ` set ?batch"
        then obtain q where q: "q \<in> set ?batch" "ob_id r = ob_id q" by auto
        from distinct_key_unique[OF d r select_unprocessed_rows(1)[OF q(1)] q(2)] q(1) n
        show False by simp
      qed
      then have "?mark r = r" by simp
      moreover from r have "?mark r \<in> set outbox'" unfolding o by simp
      ultimately show ?thesis by simp
    qed
    have gone: "ob_id r \<notin> ob_id ` set ?batch" if r: "r \<in> set (select_unprocessed later outbox')"
      for later r
    proof
      assume sel: "ob_id r \<in> ob_id ` set ?batch"
      from select_unprocessed_rows(1)[OF r] obtain q where q: "q \<in> set outbox" "r = ?mark q"
        unfolding o by auto
      have "ob_id (?mark q) = ob_id q" by simp
      with sel q(2) have "ob_id q \<in> ob_id ` set ?batch" by simp
      with q(2) have "ob_processed r" by simp
      with select_unprocessed_rows(2)[OF r] show False by simp
    qed
    from e b o gone marked kept show ?thesis
      by (simp add: outbox_message_def)
  qed
  have fail: "err = Some PublishFailed \<and> outbox' = outbox \<and>
            (\<forall>r\<in>set ?batch. r \<in> set outbox' \<and> ob_processed r = False) \<and>
            select_unprocessed locked outbox' = ?batch"
    if bad: "\<exists>r\<in>set ?batch. \<not> publish_ok (ob_id r)"
  proof -
    from run outbox_batch_publish_fails[OF bad, of commit_ok broker]
    have o: "outbox' = outbox" and e: "err = Some PublishFailed"
      by simp_all
    have "r \<in> set outbox \<and> ob_processed r = False" if "r \<in> set ?batch" for r
      using select_unprocessed_rows(1,2)[OF that] by simp
    with o e show ?thesis by simp
  qed
  have nocommit: "outbox' = outbox" if "\<not> commit_ok"
  proof (cases "\<forall>r\<in>set ?batch. publish_ok (ob_id r)")
    case True
    from run outbox_batch_all_published[OF True, of commit_ok broker] that show ?thesis by simp
  next
    case False
    then have "\<exists>r\<in>set ?batch. \<not> publish_ok (ob_id r)" by simp
    from fail[OF this] show ?thesis by simp
  qed
  from ok fail nocommit show ?thesis by blast
qed

lemma ex_batch:
  "select_unprocessed {} ex_outbox =
     [\<lparr>ob_id = 2, ob_routing_key = ''payment.processed'',
       ob_payload = \<lparr>pp_order_id = 2, pp_status = ''CANCELLED'', pp_user_id = 7\<rparr>,
       ob_processed = False\<rparr>,
      \<lparr>ob_id = 3, ob_routing_key = ''payment.processed'',
       ob_payload = \<lparr>pp_order_id = 3, pp_status = ''FINISHED'', pp_user_id = 8\<rparr>,
       ob_processed = False\<rparr>]"
  by (simp add: select_unprocessed_def ex_outbox_def)

theorem outbox_batch_all_or_nothing_witness:
  "snd (outbox_batch {} ex_publish_all True (ex_outbox, [])) = None \<and>
   snd (fst (outbox_batch {} ex_publish_all True (ex_outbox, []))) =
     [\<lparr>message_id = Some ''2'',
       body = \<lparr>pp_order_id = 2, pp_status = ''CANCELLED'', pp_user_id = 7\<rparr>,
       routing_key = ''payment.processed''\<rparr>,
      \<lparr>message_id = Some ''3'',
       body = \<lparr>pp_order_id = 3, pp_status = ''FINISHED'', pp_user_id = 8\<rparr>,
       routing_key = ''payment.processed''\<rparr>] \<and>
   \<lparr>ob_id = 2, ob_routing_key = ''payment.processed'',
       ob_payload = \<lparr>pp_order_id = 2, pp_status = ''CANCELLED'', pp_user_id = 7\<rparr>,
       ob_processed = True\<rparr> \<in> set (fst (fst (outbox_batch {} ex_publish_all True (ex_outbox, [])))) \<and>
   fst (fst (outbox_batch {} ex_publish_all True (ex_outbox, []))) =
     [\<lparr>ob_id = 1, ob_routing_key = ''payment.processed'',
       ob_payload = \<lparr>pp_order_id = 1, pp_status = ''FINISHED'', pp_user_id = 7\<rparr>,
       ob_processed = True\<rparr>,
      \<lparr>ob_id = 2, ob_routing_key = ''payment.processed'',
       ob_payload = \<lparr>pp_order_id = 2, pp_status = ''CANCELLED'', pp_user_id = 7\<rparr>,
       ob_processed = True\<rparr>,
      \<lparr>ob_id = 3, ob_routing_key = ''payment.processed'',
       ob_payload = \<lparr>pp_order_id = 3, pp_status = ''FINISHED'', pp_user_id = 8\<rparr>,
       ob_processed = True\<rparr>] \<and>
   select_unprocessed {} (fst (fst (outbox_batch {} ex_publish_all True (ex_outbox, [])))) = [] \<and>
   snd (outbox_batch {} ex_publish_ok True (ex_outbox, [])) = Some PublishFailed \<and>
   fst (fst (outbox_batch {} ex_publish_ok True (ex_outbox, []))) = ex_outbox"
proof -
  let ?a = "outbox_batch {} ex_publish_all True (ex_outbox, [])"
  let ?b = "outbox_batch {} ex_publish_ok True (ex_outbox, [])"
  have all: "\<forall>r\<in>set (select_unprocessed {} ex_outbox). ex_publish_all (ob_id r)"
    by (simp add: ex_publish_all_def)
  have bad: "\<exists>r\<in>set (select_unprocessed {} ex_outbox). \<not> ex_publish_ok (ob_id r)"
    by (simp add: ex_batch ex_publish_ok_def)
  have pa: "?a = ((fst (fst ?a), snd (fst ?a)), snd ?a)" and pb: "?b = ((fst (fst ?b), snd (fst ?b)), snd ?b)"
    by simp_all
  note ta = outbox_batch_all_or_nothing [OF pa]
  note tb = outbox_batch_all_or_nothing [OF pb]
  from ta all have a1: "snd ?a = None"
    and a2: "snd (fst ?a) = [] @
              map (\<lambda>r. \<lparr>message_id = Some (str (ob_id r)), body = ob_payload r,
                         routing_key = ob_routing_key r\<rparr>) (select_unprocessed {} ex_outbox)"
    and a3: "\<forall>r\<in>set (select_unprocessed {} ex_outbox). r\<lparr>ob_processed := True\<rparr> \<in> set (fst (fst ?a))"
    and a4: "fst (fst ?a) =
              map (\<lambda>r. if ob_id r \<in> ob_id ` set (select_unprocessed {} ex_outbox)
                        then r\<lparr>ob_processed := True\<rparr> else r) ex_outbox"
    by blast+
  from a4 have a4': "fst (fst ?a) =
     [\<lparr>ob_id = 1, ob_routing_key = ''payment.processed'',
       ob_payload = \<lparr>pp_order_id = 1, pp_status = ''FINISHED'', pp_user_id = 7\<rparr>,
       ob_processed = True\<rparr>,
      \<lparr>ob_id = 2, ob_routing_key = ''payment.processed'',
       ob_payload = \<lparr>pp_order_id = 2, pp_status = ''CANCELLED'', pp_user_id = 7\<rparr>,
       ob_processed = True\<rparr>,
      \<lparr>ob_id = 3, ob_routing_key = ''payment.processed'',
       ob_payload = \<lparr>pp_order_id = 3, pp_status = ''FINISHED'', pp_user_id = 8\<rparr>,
       ob_processed = True\<rparr>]"
    unfolding ex_batch by (simp add: ex_outbox_def)
  have a5: "select_unprocessed {} (fst (fst ?a)) = []"
    unfolding a4' by (simp add: select_unprocessed_def)
  from tb bad have b1: "snd ?b = Some PublishFailed" and b2: "fst (fst ?b) = ex_outbox"
    by blast+
  from a2 have a2': "snd (fst ?a) =
     [\<lparr>message_id = Some ''2'',
       body = \<lparr>pp_order_id = 2, pp_status = ''CANCELLED'', pp_user_id = 7\<rparr>,
       routing_key = ''payment.processed''\<rparr>,
      \<lparr>message_id = Some ''3'',
       body = \<lparr>pp_order_id = 3, pp_status = ''FINISHED'', pp_user_id = 8\<rparr>,
       routing_key = ''payment.processed''\<rparr>]"
    by (simp add: ex_batch str_def str_nat.simps digit_char_def)
  from a3 have a3': "\<lparr>ob_id = 2, ob_routing_key = ''payment.processed'',
       ob_payload = \<lparr>pp_order_id = 2, pp_status = ''CANCELLED'', pp_user_id = 7\<rparr>,
       ob_processed = True\<rparr> \<in> set (fst (fst ?a))"
    by (simp add: ex_batch)
  from a1 a2' a3' a4' a5 b1 b2 show ?thesis by blast
qed

subsection \<open>The primary key of the accounts table is kept\<close>

text \<open>
  The properties of the debit assume that no two account rows share a user id. Every
  operation of the payment service that writes the table keeps it so.
\<close>

lemma accounts_pk_create_account:
  assumes "accounts_pk db"
  shows "accounts_pk (fst (create_account commit_ok db req))"
proof (cases "get_account (accounts db) (breq_user_id req)")
  case None
  then have "breq_user_id req \<notin> acc_user_id ` set (accounts db)"
    by (auto simp: get_account_def find_None_iff)
  with assms None show ?thesis
    by (simp add: create_account_def session_begin_def accounts_pk_def)
next
  case (Some a)
  with assms show ?thesis
    by (simp add: create_account_def session_begin_def)
qed

lemma sql_update_keys:
  assumes "\<And>r. k (vals r) = k r"
  shows "map k (fst (sql_update wh vals rows)) = map k rows"
  using assms by (induction rows) (simp_all add: sql_update_def)

lemma accounts_pk_topup:
  assumes "accounts_pk db"
  shows "accounts_pk (fst (topup fadd commit_ok db req))"
proof -
  have "map acc_user_id (fst (sql_update (\<lambda>r. acc_user_id r = breq_user_id req)
          (\<lambda>r. r\<lparr>balance := fadd (balance r) (breq_amount req)\<rparr>) (accounts db))) =
        map acc_user_id (accounts db)"
    by (rule sql_update_keys) simp
  with assms show ?thesis
    by (simp add: topup_def session_begin_def accounts_pk_def)
qed

lemma accounts_pk_on_order_created:
  assumes "accounts_pk db"
  shows "accounts_pk (fst (on_order_created fsub hash commit_ok db m))"
  using assms on_order_created_accounts[OF surjective_pairing, of fsub hash commit_ok db m]
  by (auto simp: accounts_pk_def debit_update_shape)

end
